theory Spec2Isabelle
  imports Complex_Main
begin

section \<open>HTML formatting of explanations: the model\<close>

text \<open>
  A shallow embedding of \<^verbatim>\<open>eli5/formatters/html.py\<close>. Python floats are modelled
  as real numbers, so rounding of the binary representation is idealised: a float
  that is printed is the exact value rounded to the digits asked for, and where the
  exact value lies halfway between two printed numbers the float code may print
  either. Every raise of the source is a value of the type \<open>error\<close>, on the left of
  a sum.

  What an operation does at a zero divisor depends on its operands. Between Python's
  own numbers a division by zero raises ZeroDivisionError. With a \<^verbatim>\<open>numpy.float64\<close>
  scalar among the operands it warns and returns nan or an infinity, and the value goes
  on through the arithmetic and is printed as \<^verbatim>\<open>nan\<close> or \<^verbatim>\<open>inf\<close>. The functions
  that divide take the kind of their operands as an argument;
  \<^verbatim>\<open>render_weighted_spans\<close> reads its weights back from a numpy array and always
  passes numpy scalars.
\<close>

datatype error = ValueError | ZeroDivisionError | KeyError | AttributeError

datatype operands = PyFloat | NpFloat64

subsection \<open>Floats that need not be finite\<close>

text \<open>
  The result of an operation on floats: a finite value, an infinity, or nan. Sums and
  products follow IEEE 754; zero has no sign here.
\<close>

datatype fval = Fin real | PosInf | NegInf | NaN

fun fneg :: "fval \<Rightarrow> fval" where
  "fneg (Fin a) = Fin (- a)"
| "fneg PosInf = NegInf"
| "fneg NegInf = PosInf"
| "fneg NaN = NaN"

fun fadd :: "fval \<Rightarrow> fval \<Rightarrow> fval" where
  "fadd (Fin a) (Fin b) = Fin (a + b)"
| "fadd NaN y = NaN"
| "fadd x NaN = NaN"
| "fadd PosInf NegInf = NaN"
| "fadd NegInf PosInf = NaN"
| "fadd PosInf y = PosInf"
| "fadd x PosInf = PosInf"
| "fadd NegInf y = NegInf"
| "fadd x NegInf = NegInf"

definition fsub :: "fval \<Rightarrow> fval \<Rightarrow> fval" where
  "fsub x y = fadd x (fneg y)"

definition scale_inf :: "real \<Rightarrow> fval \<Rightarrow> fval" where
  "scale_inf a v = (if a = 0 then NaN else if 0 < a then v else fneg v)"

fun fmul :: "fval \<Rightarrow> fval \<Rightarrow> fval" where
  "fmul (Fin a) (Fin b) = Fin (a * b)"
| "fmul NaN y = NaN"
| "fmul x NaN = NaN"
| "fmul (Fin a) y = scale_inf a y"
| "fmul x (Fin b) = scale_inf b x"
| "fmul PosInf y = y"
| "fmul NegInf y = fneg y"

text \<open>
  \<^verbatim>\<open>a / b\<close>. At a zero divisor Python's own numbers raise; with a numpy scalar the
  quotient is nan for 0/0 and an infinity of the sign of the dividend otherwise.
\<close>

definition float_div :: "operands \<Rightarrow> real \<Rightarrow> real \<Rightarrow> error + fval" where
  "float_div k a b =
     (if b \<noteq> 0 then Inr (Fin (a / b))
      else case k of
             PyFloat \<Rightarrow> Inl ZeroDivisionError
           | NpFloat64 \<Rightarrow> Inr (if a = 0 then NaN else if 0 < a then PosInf else NegInf))"

text \<open>
  \<^verbatim>\<open>x ** y\<close> for an exponent that is positive and not an integer, as 0.7 is. A
  negative base cannot be raised to it: between Python's own numbers Python 2 raises
  ValueError and Python 3 returns a complex number, which cannot be formatted as a
  percentage (a ValueError again); with a numpy scalar the power is nan. Either
  infinity gives the positive infinity, and nan gives nan.
\<close>

definition float_pow :: "operands \<Rightarrow> fval \<Rightarrow> real \<Rightarrow> error + fval" where
  "float_pow k x y =
     (case x of
        Fin b \<Rightarrow>
          if b < 0 then (case k of PyFloat \<Rightarrow> Inl ValueError | NpFloat64 \<Rightarrow> Inr NaN)
          else Inr (Fin (b powr y))
      | PosInf \<Rightarrow> Inr PosInf
      | NegInf \<Rightarrow> Inr PosInf
      | NaN \<Rightarrow> Inr NaN)"

subsection \<open>Escaping\<close>

text \<open>
  \<^verbatim>\<open>html_escape(text) = cgi.escape(text, quote=True)\<close>. The standard library function
  is four successive \<^verbatim>\<open>str.replace\<close> calls, the ampersand first, and the double quote
  because \<^verbatim>\<open>quote\<close> is true. The apostrophe is not touched.
\<close>

definition replace_char :: "char \<Rightarrow> string \<Rightarrow> string \<Rightarrow> string" where
  "replace_char c r s = concat (map (\<lambda>x. if x = c then r else [x]) s)"

definition html_escape :: "string \<Rightarrow> string" where
  "html_escape text =
     replace_char (CHR 0x22) ''&quot;''
       (replace_char (CHR ''>'') ''&gt;''
         (replace_char (CHR ''<'') ''&lt;''
           (replace_char (CHR ''&'') ''&amp;'' text)))"

text \<open>What one character becomes under \<open>html_escape\<close>.\<close>

definition escape_char :: "char \<Rightarrow> string" where
  "escape_char c =
     (if c = CHR ''&'' then ''&amp;''
      else if c = CHR ''<'' then ''&lt;''
      else if c = CHR ''>'' then ''&gt;''
      else if c = CHR 0x22 then ''&quot;''
      else [c])"

text \<open>
  A string is escaped text when it holds no \<open><\<close>, \<open>>\<close> or double quote, and every
  ampersand in it opens one of the four entities that \<open>html_escape\<close> writes.
\<close>

definition entities :: "string list" where
  "entities = [''&amp;'', ''&lt;'', ''&gt;'', ''&quot;'']"

fun escaped :: "string \<Rightarrow> bool" where
  "escaped [] = True"
| "escaped (c # cs) =
     ((if c = CHR ''&'' then list_ex (\<lambda>e. take (length e) (c # cs) = e) entities
       else c \<noteq> CHR ''<'' \<and> c \<noteq> CHR ''>'' \<and> c \<noteq> CHR 0x22)
      \<and> escaped cs)"

subsection \<open>Formatting numbers\<close>

text \<open>
  Python's \<^verbatim>\<open>'{}'.format\<close> of an integer, and \<^verbatim>\<open>'{:.Nf}'\<close> and \<^verbatim>\<open>'{:.N%}'\<close> of a
  float: the value is rounded to N decimals, ties to even, and printed with a sign,
  the integer part, and N digits after the point.
\<close>

definition digit_char :: "nat \<Rightarrow> char" where
  "digit_char n = ''0123456789'' ! n"

fun str_nat :: "nat \<Rightarrow> string" where
  "str_nat n = (if n < 10 then [digit_char n] else str_nat (n div 10) @ [digit_char (n mod 10)])"

declare str_nat.simps [simp del]

definition str_int :: "int \<Rightarrow> string" where
  "str_int i = (if i < 0 then ''-'' @ str_nat (nat (- i)) else str_nat (nat i))"

definition round_half_even :: "real \<Rightarrow> int" where
  "round_half_even x =
     (let f = \<lfloor>x\<rfloor>; d = x - of_int f
      in if d < 1 / 2 then f
         else if 1 / 2 < d then f + 1
         else if even f then f else f + 1)"

definition format_fixed :: "nat \<Rightarrow> real \<Rightarrow> string" where
  "format_fixed prec x =
     (let n = nat (round_half_even (\<bar>x\<bar> * 10 ^ prec));
          whole = str_nat (n div 10 ^ prec);
          frac = str_nat (n mod 10 ^ prec)
      in (if x < 0 then ''-'' else '''') @ whole @
         (if prec = 0 then '''' else ''.'' @ replicate (prec - length frac) (CHR ''0'') @ frac))"

definition format_percent :: "nat \<Rightarrow> real \<Rightarrow> string" where
  "format_percent prec x = format_fixed prec (x * 100) @ ''%''"

text \<open>The same two formats of a float that need not be finite.\<close>

definition format_float :: "nat \<Rightarrow> fval \<Rightarrow> string" where
  "format_float prec v =
     (case v of
        Fin x \<Rightarrow> format_fixed prec x
      | PosInf \<Rightarrow> ''inf''
      | NegInf \<Rightarrow> ''-inf''
      | NaN \<Rightarrow> ''nan'')"

definition format_float_percent :: "nat \<Rightarrow> fval \<Rightarrow> string" where
  "format_float_percent prec v =
     (case v of
        Fin x \<Rightarrow> format_percent prec x
      | PosInf \<Rightarrow> ''inf%''
      | NegInf \<Rightarrow> ''-inf%''
      | NaN \<Rightarrow> ''nan%'')"

subsection \<open>Colour mapping\<close>

definition hue :: "real \<Rightarrow> int" where
  "hue weight = (if 0 < weight then 120 else 0)"

text \<open>\<^verbatim>\<open>'hsl({}, {:.2%}, {:.2%})'.format(hue, saturation, lightness)\<close>\<close>

definition hsl_format :: "int \<Rightarrow> real \<Rightarrow> fval \<Rightarrow> string" where
  "hsl_format h saturation lightness =
     ''hsl('' @ str_int h @ '', '' @ format_percent 2 saturation @ '', '' @
     format_float_percent 2 lightness @ '')''"

text \<open>
  \<^verbatim>\<open>_weight_opacity\<close>, for operands of the kind \<open>k\<close>: the result is the opacity
  printed with two decimals. At a zero range Python's own floats raise, and numpy
  scalars give the opacity nan or inf.
\<close>

definition weight_opacity :: "operands \<Rightarrow> real \<Rightarrow> real \<Rightarrow> error + string" where
  "weight_opacity k weight weight_range =
     (let min_opacity = 0.8
      in case float_div k \<bar>weight\<bar> weight_range of
           Inl e \<Rightarrow> Inl e
         | Inr rel_weight \<Rightarrow>
             Inr (format_float 2 (fadd (Fin min_opacity) (fmul (Fin (1 - min_opacity)) rel_weight))))"

text \<open>
  \<^verbatim>\<open>_weight_color\<close>, for operands of the kind \<open>k\<close>: the ratio, its power 0.7,
  the lightness, and the colour as text.
\<close>

definition weight_color :: "operands \<Rightarrow> real \<Rightarrow> real \<Rightarrow> real \<Rightarrow> error + string" where
  "weight_color k weight weight_range min_lightness =
     (let h = hue weight;
          saturation = 1
      in case float_div k \<bar>weight\<bar> weight_range of
           Inl e \<Rightarrow> Inl e
         | Inr ratio \<Rightarrow>
             (case float_pow k ratio 0.7 of
                Inl e \<Rightarrow> Inl e
              | Inr rel_weight \<Rightarrow>
                  let lightness = fsub (Fin 1.0) (fmul (Fin (1 - min_lightness)) rel_weight)
                  in Inr (hsl_format h saturation lightness)))"

text \<open>
  \<^verbatim>\<open>min(xs, key=abs)\<close> keeps the first element of least magnitude, and
  \<^verbatim>\<open>max(xs)\<close> of an empty sequence raises ValueError.
\<close>

fun min_abs_from :: "real \<Rightarrow> real list \<Rightarrow> real" where
  "min_abs_from best [] = best"
| "min_abs_from best (x # xs) = min_abs_from (if \<bar>x\<bar> < \<bar>best\<bar> then x else best) xs"

definition min_key_abs :: "real list \<Rightarrow> error + real" where
  "min_key_abs xs = (case xs of [] \<Rightarrow> Inl ValueError | x # rest \<Rightarrow> Inr (min_abs_from x rest))"

definition py_max :: "real list \<Rightarrow> error + real" where
  "py_max xs = (case xs of [] \<Rightarrow> Inl ValueError | x # rest \<Rightarrow> Inr (fold max rest x))"

text \<open>
  \<^verbatim>\<open>_remaining_weight_color(ws, weight_range, pos_neg)\<close>: \<open>ws\<close> is a list of
  (feature, coefficient) pairs; the sign is looked up in a two-entry dictionary, which
  raises KeyError for any other key. The default \<^verbatim>\<open>min_lightness\<close> is 0.8. The
  coefficients and the range are of the kind \<open>k\<close>; in the first case the weight and
  the range are the Python integers of the code.
\<close>

definition sign_of :: "string \<Rightarrow> error + real" where
  "sign_of pos_neg =
     (if pos_neg = ''pos'' then Inr 1 else if pos_neg = ''neg'' then Inr (- 1) else Inl KeyError)"

definition remaining_weight_color ::
  "operands \<Rightarrow> (string \<times> real) list \<Rightarrow> real \<Rightarrow> string \<Rightarrow> error + string" where
  "remaining_weight_color k ws weight_range pos_neg =
     (case sign_of pos_neg of
        Inl e \<Rightarrow> Inl e
      | Inr sg \<Rightarrow>
          if ws = [] \<and> weight_range = 0 then weight_color PyFloat sg 1 0.8
          else if ws = [] then weight_color k (sg * weight_range) weight_range 0.8
          else (case min_key_abs (map snd ws) of
                  Inl e \<Rightarrow> Inl e
                | Inr weight \<Rightarrow> weight_color k weight weight_range 0.8))"

subsection \<open>Token colouring\<close>

text \<open>
  \<^verbatim>\<open>numpy.isclose(a, b)\<close> with its default tolerances: \<open>|a - b| \<le> atol + rtol * |b|\<close>
  with \<open>rtol = 1e-05\<close> and \<open>atol = 1e-08\<close>.
\<close>

definition isclose :: "real \<Rightarrow> real \<Rightarrow> bool" where
  "isclose a b = (\<bar>a - b\<bar> \<le> 1 / 10 ^ 8 + (1 / 10 ^ 5) * \<bar>b\<bar>)"

text \<open>
  \<^verbatim>\<open>_colorize(token, weight, weight_range)\<close>, for a weight and a range of the
  kind \<open>k\<close>. The keyword arguments of \<^verbatim>\<open>format\<close> are evaluated in the order
  written: the colour before the opacity.
\<close>

definition colorize :: "operands \<Rightarrow> string \<Rightarrow> real \<Rightarrow> real \<Rightarrow> error + string" where
  \<open>colorize k token weight weight_range =
     (let token = html_escape token
      in if isclose weight 0 then
           (case weight_opacity k weight weight_range of
              Inl e \<Rightarrow> Inl e
            | Inr opacity \<Rightarrow>
                Inr (''<span '' @ ''style="opacity: '' @ opacity @ ''"'' @
                     ''>'' @ token @ ''</span>''))
         else
           (case weight_color k weight weight_range 0.6 of
              Inl e \<Rightarrow> Inl e
            | Inr color \<Rightarrow>
                (case weight_opacity k weight weight_range of
                   Inl e \<Rightarrow> Inl e
                 | Inr opacity \<Rightarrow>
                     Inr (''<span '' @ ''style="background-color: '' @ color @
                          ''; opacity: '' @ opacity @ ''" '' @
                          ''title="'' @ format_fixed 3 weight @ ''"'' @
                          ''>'' @ token @ ''</span>''))))\<close>

subsection \<open>Accumulating the weights of the spans\<close>

text \<open>
  \<^verbatim>\<open>WeightedSpans\<close>: the analyzer, the document, and the weighted spans, each a
  feature, its list of (start, end) character ranges, and its weight.
\<close>

type_synonym weighted_span = "string \<times> (int \<times> int) list \<times> real"

record weighted_spans_data =
  analyzer :: string
  document :: string
  weighted_spans :: "weighted_span list"

definition startswith :: "string \<Rightarrow> string \<Rightarrow> bool" where
  "startswith s p = (take (length p) s = p)"

text \<open>
  Lines 93 to 94: an unspecified \<^verbatim>\<open>preserve_density\<close> is read off the analyzer.
\<close>

definition preserve_density_of :: "bool option \<Rightarrow> weighted_spans_data \<Rightarrow> bool" where
  "preserve_density_of preserve_density wsd =
     (case preserve_density of
        None \<Rightarrow> startswith (analyzer wsd) ''char''
      | Some b \<Rightarrow> b)"

text \<open>
  \<^verbatim>\<open>Counter(f for f, _, _ in weighted_spans)\<close>, read at a feature; a missing key
  counts zero.
\<close>

definition feature_counts :: "weighted_span list \<Rightarrow> string \<Rightarrow> nat" where
  "feature_counts spans f = count_list (map fst spans) f"

text \<open>
  \<^verbatim>\<open>char_weights[start:end] += weight\<close>. A slice bound below zero counts from the
  end of the array, and both bounds are clipped to the array.
\<close>

definition slice_bound :: "int \<Rightarrow> nat \<Rightarrow> nat" where
  "slice_bound i n = (if i < 0 then nat (max (i + int n) 0) else min (nat i) n)"

definition slice_add :: "real list \<Rightarrow> int \<Rightarrow> int \<Rightarrow> real \<Rightarrow> real list" where
  "slice_add a start stop w =
     (let lo = slice_bound start (length a);
          hi = slice_bound stop (length a)
      in map (\<lambda>(k, x). if lo \<le> k \<and> k < hi then x + w else x) (zip [0..<length a] a))"

text \<open>
  The inner loop of lines 100 to 104. The variable \<^verbatim>\<open>weight\<close> is updated in place by
  both divisions, so the value one range leaves is the value the next range starts
  from: the loop passes it on together with the array. The weight of a span is a
  Python float and the bounds of a range are Python integers, so a range of length
  zero raises ZeroDivisionError when the density is preserved.
\<close>

fun add_ranges :: "bool \<Rightarrow> nat \<Rightarrow> (int \<times> int) list \<Rightarrow> real \<Rightarrow> real list \<Rightarrow> error + real list" where
  "add_ranges preserve_density cnt [] weight char_weights = Inr char_weights"
| "add_ranges preserve_density cnt ((start, stop) # ranges) weight char_weights =
     (if preserve_density \<and> stop - start = 0 then Inl ZeroDivisionError
      else let weight = (if preserve_density then weight / real_of_int (stop - start) else weight)
           in if cnt = 0 then Inl ZeroDivisionError
              else let weight = weight / real cnt
                   in add_ranges preserve_density cnt ranges weight
                        (slice_add char_weights start stop weight))"

text \<open>The outer loop of line 99: each weighted span starts from its own weight.\<close>

fun add_spans :: "bool \<Rightarrow> (string \<Rightarrow> nat) \<Rightarrow> weighted_span list \<Rightarrow> real list \<Rightarrow> error + real list" where
  "add_spans preserve_density counts [] char_weights = Inr char_weights"
| "add_spans preserve_density counts ((feature, ranges, weight) # rest) char_weights =
     (case add_ranges preserve_density (counts feature) ranges weight char_weights of
        Inl e \<Rightarrow> Inl e
      | Inr char_weights' \<Rightarrow> add_spans preserve_density counts rest char_weights')"

text \<open>Lines 93 to 104 of \<^verbatim>\<open>render_weighted_spans\<close>: the array of character weights.\<close>

definition char_weights_of :: "bool option \<Rightarrow> weighted_spans_data \<Rightarrow> error + real list" where
  "char_weights_of preserve_density wsd =
     (let pd = preserve_density_of preserve_density wsd;
          doc = document wsd;
          spans = weighted_spans wsd
      in add_spans pd (feature_counts spans) spans (replicate (length doc) 0))"

text \<open>
  \<^verbatim>\<open>''.join(_colorize(token, weight, weight_range) for token, weight in zip(...))\<close>:
  the fragments are produced and joined in the order of the pairs. The weights are
  the elements of the numpy array and the range is the greatest of their magnitudes,
  so both are \<^verbatim>\<open>numpy.float64\<close> scalars.
\<close>

fun join_colorize :: "(char \<times> real) list \<Rightarrow> real \<Rightarrow> error + string" where
  "join_colorize [] weight_range = Inr []"
| "join_colorize ((token, weight) # rest) weight_range =
     (case colorize NpFloat64 [token] weight weight_range of
        Inl e \<Rightarrow> Inl e
      | Inr fragment \<Rightarrow>
          (case join_colorize rest weight_range of
             Inl e \<Rightarrow> Inl e
           | Inr tail \<Rightarrow> Inr (fragment @ tail)))"

definition render_weighted_spans :: "bool option \<Rightarrow> weighted_spans_data \<Rightarrow> error + string" where
  "render_weighted_spans preserve_density wsd =
     (case char_weights_of preserve_density wsd of
        Inl e \<Rightarrow> Inl e
      | Inr char_weights \<Rightarrow>
          (case py_max (map abs char_weights) of
             Inl e \<Rightarrow> Inl e
           | Inr weight_range \<Rightarrow> join_colorize (zip (document wsd) char_weights) weight_range))"

subsection \<open>Selecting the top target\<close>

text \<open>
  A \<^verbatim>\<open>TargetExplanation\<close>, with the two optional fields the selection reads.
  \<^verbatim>\<open>max(targets, key=...)\<close> keeps the first target of greatest key and raises
  ValueError on an empty list; a function that falls off its end returns None.
\<close>

record target_explanation =
  target :: string
  proba :: "real option"
  score :: "real option"

fun max_by_from :: "('a \<Rightarrow> real) \<Rightarrow> 'a \<Rightarrow> 'a list \<Rightarrow> 'a" where
  "max_by_from key best [] = best"
| "max_by_from key best (x # xs) = max_by_from key (if key best < key x then x else best) xs"

definition max_by :: "('a \<Rightarrow> real) \<Rightarrow> 'a list \<Rightarrow> error + 'a" where
  "max_by key xs = (case xs of [] \<Rightarrow> Inl ValueError | x # rest \<Rightarrow> Inr (max_by_from key x rest))"

definition get_top_target :: "target_explanation list \<Rightarrow> error + target_explanation option" where
  "get_top_target targets =
     (if list_all (\<lambda>t. proba t \<noteq> None) targets then
        map_sum id Some (max_by (\<lambda>t. the (proba t)) targets)
      else if list_all (\<lambda>t. score t \<noteq> None) targets then
        map_sum id Some (max_by (\<lambda>t. the (score t)) targets)
      else Inr None)"

subsection \<open>Feature labels\<close>

text \<open>
  A feature is a \<^verbatim>\<open>FormattedFeatureName\<close>, a list of candidate dictionaries, or a plain
  string. Of a candidate dictionary only the keys \<^verbatim>\<open>name\<close> and \<^verbatim>\<open>sign\<close> are read;
  a key that is missing is \<open>None\<close>.
\<close>

record candidate =
  name :: "string option"
  sign :: "real option"

datatype feature = Formatted string | Candidates "candidate list" | Plain string

datatype side = Left | Right | Center

text \<open>
  Modelled from the spec: \<^verbatim>\<open>format_signed\<close> of \<^verbatim>\<open>eli5/formatters/utils.py\<close>, which is
  not among the sources. The candidate is rendered signed, with the prefix \<open>-\<close> if its
  sign is negative and nothing if it is positive, and its name is fed through the
  formatter. Reading a missing key raises KeyError.
\<close>

definition format_signed :: "candidate \<Rightarrow> (string \<Rightarrow> string) \<Rightarrow> error + string" where
  "format_signed c formatter =
     (case sign c of
        None \<Rightarrow> Inl KeyError
      | Some s \<Rightarrow>
          (case name c of
             None \<Rightarrow> Inl KeyError
           | Some n \<Rightarrow> Inr ((if s < 0 then ''-'' else []) @ formatter n)))"

text \<open>
  Modelled from the spec: \<^verbatim>\<open>replace_spaces\<close> of \<^verbatim>\<open>eli5/formatters/utils.py\<close>, which
  is not among the sources. Every maximal run of consecutive space characters is
  replaced by what the replacer returns for the length of the run and its position:
  at the start of the string, at its end, or in its interior.
\<close>

definition is_space :: "char \<Rightarrow> bool" where
  "is_space c = (c = CHR '' '')"

function replace_spaces_from :: "bool \<Rightarrow> string \<Rightarrow> (nat \<Rightarrow> side \<Rightarrow> string) \<Rightarrow> string" where
  "replace_spaces_from at_start [] rep = []"
| "replace_spaces_from at_start (c # cs) rep =
     (if is_space c then
        (let n = Suc (length (takeWhile is_space cs));
             rest = dropWhile is_space cs;
             sd = (if at_start then Left else if rest = [] then Right else Center)
         in rep n sd @ replace_spaces_from False rest rep)
      else c # replace_spaces_from False cs rep)"
  by pat_completeness auto
termination
  by (relation "measure (\<lambda>(b, s, r). length s)") (auto simp: length_dropWhile_le less_Suc_eq_le)

definition replace_spaces :: "string \<Rightarrow> (nat \<Rightarrow> side \<Rightarrow> string) \<Rightarrow> string" where
  "replace_spaces s rep = replace_spaces_from True s rep"

text \<open>
  The local function \<^verbatim>\<open>replacer\<close> of \<^verbatim>\<open>_format_single_feature\<close>. The margins are
  written in the order top, right, bottom, left.
\<close>

definition replacer :: "real \<Rightarrow> nat \<Rightarrow> side \<Rightarrow> string" where
  \<open>replacer weight n_spaces sd =
     (let m = ''0.1em'';
          margins = (case sd of Left \<Rightarrow> (m, ''0'') | Right \<Rightarrow> (''0'', m) | Center \<Rightarrow> (m, m));
          style = ''background-color: hsl('' @ str_int (hue weight) @ '', 80%, 70%)'' @ ''; '' @
                  ''margin: 0 '' @ fst margins @ '' 0 '' @ snd margins;
          title = (if n_spaces = 1 then ''A space symbol''
                   else str_nat n_spaces @ '' space symbols'')
      in ''<span style="'' @ style @ ''" title="'' @ title @ ''">'' @
         concat (replicate n_spaces ''&emsp;'') @ ''</span>'')\<close>

definition format_single_feature :: "string \<Rightarrow> real \<Rightarrow> bool \<Rightarrow> string" where
  "format_single_feature feat weight hl_spaces =
     (let feat = html_escape feat
      in if \<not> hl_spaces then feat
         else replace_spaces feat (replacer weight))"

text \<open>\<^verbatim>\<open>sep.join(xs)\<close>\<close>

fun join :: "string \<Rightarrow> string list \<Rightarrow> string" where
  "join sep [] = []"
| "join sep [x] = x"
| "join sep (x # y # ys) = x @ sep @ join sep (y # ys)"

text \<open>
  The generator \<^verbatim>\<open>html_escape(format_signed(f)) for f in rest\<close>, stopping at the
  first raise.
\<close>

fun escaped_signed :: "candidate list \<Rightarrow> error + string list" where
  "escaped_signed [] = Inr []"
| "escaped_signed (f # fs) =
     (case format_signed f id of
        Inl e \<Rightarrow> Inl e
      | Inr txt \<Rightarrow>
          (case escaped_signed fs of
             Inl e \<Rightarrow> Inl e
           | Inr txts \<Rightarrow> Inr (html_escape txt # txts)))"

definition format_unhashed_feature :: "candidate list \<Rightarrow> real \<Rightarrow> bool \<Rightarrow> error + string" where
  \<open>format_unhashed_feature feat weight hl_spaces =
     (case feat of
        [] \<Rightarrow> Inr []
      | first # rest \<Rightarrow>
          (case format_signed first (\<lambda>x. format_single_feature x weight hl_spaces) of
             Inl e \<Rightarrow> Inl e
           | Inr html \<Rightarrow>
               if rest \<noteq> [] then
                 (case escaped_signed rest of
                    Inl e \<Rightarrow> Inl e
                  | Inr txts \<Rightarrow>
                      Inr (html @ '' <span title="'' @ join [CHR 0x0A] txts @ ''">&hellip;</span>''))
               else Inr html))\<close>

text \<open>
  \<^verbatim>\<open>_format_feature\<close>. A list with an element that lacks one of the two keys falls
  through to the last branch, where escaping a list raises AttributeError.
\<close>

definition format_feature :: "feature \<Rightarrow> real \<Rightarrow> bool \<Rightarrow> error + string" where
  "format_feature feat weight hl_spaces =
     (case feat of
        Formatted v \<Rightarrow> Inr v
      | Candidates cs \<Rightarrow>
          if list_all (\<lambda>x. name x \<noteq> None \<and> sign x \<noteq> None) cs
          then format_unhashed_feature cs weight hl_spaces
          else Inl AttributeError
      | Plain txt \<Rightarrow> Inr (format_single_feature txt weight hl_spaces))"

subsection \<open>Highlighted labels, read off the unescaped text\<close>

text \<open>
  The walk of \<open>replace_spaces_from\<close> taken on the text before it is escaped: a run of
  spaces becomes what the replacer returns for it, and every other character becomes
  what \<open>html_escape\<close> makes of it. It is the reading of a highlighted label as escaped
  characters between markers, against which \<open>format_single_feature\<close> is compared.
\<close>

function highlight_escaped :: "(nat \<Rightarrow> side \<Rightarrow> string) \<Rightarrow> bool \<Rightarrow> string \<Rightarrow> string" where
  "highlight_escaped rep at_start [] = []"
| "highlight_escaped rep at_start (c # cs) =
     (if is_space c then
        (let n = Suc (length (takeWhile is_space cs));
             rest = dropWhile is_space cs;
             sd = (if at_start then Left else if rest = [] then Right else Center)
         in rep n sd @ highlight_escaped rep False rest)
      else escape_char c @ highlight_escaped rep False cs)"
  by pat_completeness auto
termination
  by (relation "measure (\<lambda>(r, b, s). length s)") (auto simp: length_dropWhile_le less_Suc_eq_le)

section \<open>Auxiliary facts\<close>

text \<open>The selections by key: a least magnitude, and the first greatest key.\<close>

lemma min_abs_from_least:
  "min_abs_from best xs \<in> set (best # xs)
   \<and> (\<forall>c \<in> set (best # xs). \<bar>min_abs_from best xs\<bar> \<le> \<bar>c\<bar>)"
proof (induction xs arbitrary: best)
  case Nil
  then show ?case by simp
next
  case (Cons x xs)
  from Cons.IH [of "if \<bar>x\<bar> < \<bar>best\<bar> then x else best"]
  show ?case by (auto split: if_splits)
qed

lemma max_by_from_first:
  "(max_by_from key best xs = best \<and> (\<forall>x \<in> set xs. key x \<le> key best))
   \<or> (\<exists>ys zs. xs = ys @ max_by_from key best xs # zs
         \<and> key best < key (max_by_from key best xs)
         \<and> (\<forall>y \<in> set ys. key y < key (max_by_from key best xs))
         \<and> (\<forall>z \<in> set zs. key z \<le> key (max_by_from key best xs)))"
proof (induction xs arbitrary: best)
  case Nil
  then show ?case by simp
next
  case (Cons x xs)
  let ?b = "if key best < key x then x else best"
  let ?r = "max_by_from key ?b xs"
  have r: "max_by_from key best (x # xs) = ?r" by simp
  from Cons.IH [of ?b] consider
    (keep) "?r = ?b" "\<forall>u \<in> set xs. key u \<le> key ?b"
    | (later) ys zs where "xs = ys @ ?r # zs" "key ?b < key ?r"
        "\<forall>y \<in> set ys. key y < key ?r" "\<forall>z \<in> set zs. key z \<le> key ?r"
    by blast
  then show ?case
  proof cases
    case keep
    show ?thesis
    proof (cases "key best < key x")
      case True
      with keep have "x # xs = [] @ ?r # xs" "key best < key ?r"
        "\<forall>z \<in> set xs. key z \<le> key ?r" by simp_all
      then show ?thesis unfolding r by (metis empty_iff list.set(1))
    next
      case False
      with keep show ?thesis unfolding r by auto
    qed
  next
    case later
    have "x # xs = (x # ys) @ ?r # zs" using later(1) by simp
    moreover have "key best < key ?r" using later(2) by (simp split: if_splits)
    moreover have "\<forall>y \<in> set (x # ys). key y < key ?r"
      using later(2,3) by (auto split: if_splits)
    ultimately show ?thesis unfolding r using later(4) by blast
  qed
qed

lemma max_by_first:
  assumes "xs \<noteq> []"
  shows "\<exists>t ys zs. max_by key xs = Inr t \<and> xs = ys @ t # zs
         \<and> (\<forall>y \<in> set ys. key y < key t) \<and> (\<forall>z \<in> set zs. key z \<le> key t)"
proof -
  from assms obtain b rest where xs: "xs = b # rest" by (cases xs) auto
  let ?r = "max_by_from key b rest"
  have m: "max_by key xs = Inr ?r" by (simp add: max_by_def xs)
  from max_by_from_first [of key b rest] consider
    (keep) "?r = b" "\<forall>u \<in> set rest. key u \<le> key b"
    | (later) ys zs where "rest = ys @ ?r # zs" "key b < key ?r"
        "\<forall>y \<in> set ys. key y < key ?r" "\<forall>z \<in> set zs. key z \<le> key ?r"
    by blast
  then show ?thesis
  proof cases
    case keep
    then have "xs = [] @ ?r # rest" "\<forall>z \<in> set rest. key z \<le> key ?r" by (simp_all add: xs)
    with m show ?thesis by (metis empty_iff list.set(1))
  next
    case later
    have "xs = (b # ys) @ ?r # zs" using later(1) by (simp add: xs)
    moreover have "\<forall>y \<in> set (b # ys). key y < key ?r" using later(2,3) by simp
    ultimately show ?thesis using m later(4) by blast
  qed
qed

text \<open>Rounding stays between two integers that enclose the value.\<close>

lemma round_half_even_bounds:
  assumes "real_of_int a \<le> x" and "x \<le> real_of_int b"
  shows "a \<le> round_half_even x \<and> round_half_even x \<le> b"
proof -
  have lo: "a \<le> \<lfloor>x\<rfloor>" using assms(1) by (simp add: le_floor_iff)
  have up: "\<lfloor>x\<rfloor> \<le> b" using assms(2) by (simp add: floor_le_iff)
  have "\<lfloor>x\<rfloor> + 1 \<le> b" if "x - of_int \<lfloor>x\<rfloor> \<ge> 1 / 2"
  proof -
    from that have "of_int \<lfloor>x\<rfloor> < x" by simp
    with assms(2) have "real_of_int \<lfloor>x\<rfloor> < real_of_int b" by linarith
    then show ?thesis by simp
  qed
  with lo up show ?thesis
    by (auto simp: round_half_even_def Let_def)
qed

text \<open>Printing the numbers that the scenarios need.\<close>

lemma round_half_even_samples:
  "round_half_even 10000 = 10000" "round_half_even 8000 = 8000"
  by (simp_all add: round_half_even_def)

lemma str_nat_samples:
  "str_nat 100 = ''100''" "str_nat 0 = ''0''" "str_nat 80 = ''80''" "str_nat 120 = ''120''"
  by (simp_all add: str_nat.simps digit_char_def)

lemma hsl_format_green:
  "hsl_format 120 1 (Fin (8 / 10)) = ''hsl(120, 100.00%, 80.00%)''"
  by (simp add: hsl_format_def format_float_percent_def format_percent_def format_fixed_def
      str_int_def round_half_even_samples str_nat_samples)

text \<open>Away from the zero range the kind of the operands does not matter.\<close>

lemma weight_opacity_finite:
  "weight_range \<noteq> 0 \<Longrightarrow>
   weight_opacity k weight weight_range
     = Inr (format_fixed 2 (0.8 + 0.2 * (\<bar>weight\<bar> / weight_range)))"
  by (simp add: weight_opacity_def float_div_def format_float_def)

lemma weight_color_finite:
  assumes "0 < weight_range"
  shows "weight_color k weight weight_range min_lightness
     = Inr (hsl_format (hue weight) 1
              (Fin (1 - (1 - min_lightness) * (\<bar>weight\<bar> / weight_range) powr 0.7)))"
proof -
  have "\<not> \<bar>weight\<bar> / weight_range < 0" using assms by (simp add: not_less)
  with assms show ?thesis
    by (simp add: weight_color_def float_div_def float_pow_def fsub_def)
qed

text \<open>With numpy scalars neither function raises, whatever the range.\<close>

lemma weight_opacity_numpy:
  "\<exists>opacity. weight_opacity NpFloat64 weight weight_range = Inr opacity"
  by (simp add: weight_opacity_def float_div_def)

lemma weight_color_numpy:
  "\<exists>color. weight_color NpFloat64 weight weight_range min_lightness = Inr color"
  by (simp add: weight_color_def float_div_def float_pow_def Let_def split: fval.splits)

text \<open>The array of weights keeps the length of the document.\<close>

lemma length_slice_add: "length (slice_add a start stop w) = length a"
  by (simp add: slice_add_def Let_def)

lemma add_ranges_length:
  "add_ranges pd cnt ranges weight cw = Inr cw' \<Longrightarrow> length cw' = length cw"
proof (induction ranges arbitrary: weight cw)
  case Nil
  then show ?case by simp
next
  case (Cons r ranges)
  obtain start stop where r: "r = (start, stop)" by (cases r)
  from Cons.prems obtain w' where
    "add_ranges pd cnt ranges w' (slice_add cw start stop w') = Inr cw'"
    unfolding r by (auto simp: Let_def split: if_splits)
  from Cons.IH [OF this] show ?case by (simp add: length_slice_add)
qed

lemma add_spans_length:
  "add_spans pd counts spans cw = Inr cw' \<Longrightarrow> length cw' = length cw"
proof (induction spans arbitrary: cw)
  case Nil
  then show ?case by simp
next
  case (Cons sp spans)
  obtain feat ranges weight where sp: "sp = (feat, ranges, weight)" by (cases sp)
  from Cons.prems obtain cw1 where
    "add_ranges pd (counts feat) ranges weight cw = Inr cw1"
    "add_spans pd counts spans cw1 = Inr cw'"
    unfolding sp by (auto split: sum.splits)
  from add_ranges_length [OF this(1)] Cons.IH [OF this(2)] show ?case by simp
qed

lemma char_weights_of_length:
  "char_weights_of pd wsd = Inr cw \<Longrightarrow> length cw = length (document wsd)"
  by (auto simp: char_weights_of_def Let_def dest!: add_spans_length)

text \<open>The two fragments of \<open>colorize\<close>, and the joined fragments, for a positive range.\<close>

lemma colorize_neutral:
  assumes "0 < weight_range" and "isclose weight 0"
  shows \<open>colorize k token weight weight_range =
           Inr (''<span style="opacity: '' @
                format_fixed 2 (0.8 + 0.2 * (\<bar>weight\<bar> / weight_range)) @
                ''">'' @ html_escape token @ ''</span>'')\<close>
  using assms by (simp add: colorize_def weight_opacity_finite)

lemma colorize_coloured:
  assumes "0 < weight_range" and "\<not> isclose weight 0"
  shows \<open>colorize k token weight weight_range =
           Inr (''<span style="background-color: '' @
                hsl_format (hue weight) 1
                  (Fin (1 - (1 - 0.6) * (\<bar>weight\<bar> / weight_range) powr 0.7)) @
                ''; opacity: '' @
                format_fixed 2 (0.8 + 0.2 * (\<bar>weight\<bar> / weight_range)) @
                ''" title="'' @ format_fixed 3 weight @
                ''">'' @ html_escape token @ ''</span>'')\<close>
  using assms by (simp add: colorize_def weight_opacity_finite weight_color_finite)

lemma colorize_numpy_neutral:
  assumes "isclose weight 0"
  shows \<open>\<exists>opacity. weight_opacity NpFloat64 weight weight_range = Inr opacity
           \<and> colorize NpFloat64 token weight weight_range =
               Inr (''<span style="opacity: '' @ opacity @
                    ''">'' @ html_escape token @ ''</span>'')\<close>
proof -
  from weight_opacity_numpy obtain opacity where
    o: "weight_opacity NpFloat64 weight weight_range = Inr opacity" by blast
  with assms show ?thesis by (simp add: colorize_def)
qed

lemma colorize_numpy_coloured:
  assumes "\<not> isclose weight 0"
  shows \<open>\<exists>color opacity. weight_color NpFloat64 weight weight_range 0.6 = Inr color
           \<and> weight_opacity NpFloat64 weight weight_range = Inr opacity
           \<and> colorize NpFloat64 token weight weight_range =
               Inr (''<span style="background-color: '' @ color @
                    ''; opacity: '' @ opacity @
                    ''" title="'' @ format_fixed 3 weight @
                    ''">'' @ html_escape token @ ''</span>'')\<close>
proof -
  from weight_opacity_numpy obtain opacity where
    o: "weight_opacity NpFloat64 weight weight_range = Inr opacity" by blast
  from weight_color_numpy obtain color where
    c: "weight_color NpFloat64 weight weight_range 0.6 = Inr color" by blast
  have \<open>colorize NpFloat64 token weight weight_range =
               Inr (''<span style="background-color: '' @ color @
                    ''; opacity: '' @ opacity @
                    ''" title="'' @ format_fixed 3 weight @
                    ''">'' @ html_escape token @ ''</span>'')\<close>
    using assms o c by (simp add: colorize_def)
  with o c show ?thesis by blast
qed

lemma colorize_numpy_succeeds:
  "\<exists>fragment. colorize NpFloat64 token weight weight_range = Inr fragment"
  using colorize_numpy_neutral [of weight weight_range token]
    colorize_numpy_coloured [of weight weight_range token]
  by (cases "isclose weight 0") blast+

lemma join_colorize_fragments:
  "\<exists>frags. join_colorize ps weight_range = Inr (concat frags)
      \<and> length frags = length ps
      \<and> (\<forall>i < length ps.
            colorize NpFloat64 [fst (ps ! i)] (snd (ps ! i)) weight_range = Inr (frags ! i))"
proof (induction ps)
  case Nil
  then show ?case by simp
next
  case (Cons p ps)
  obtain token weight where p: "p = (token, weight)" by (cases p)
  from colorize_numpy_succeeds obtain fragment where
    f: "colorize NpFloat64 [token] weight weight_range = Inr fragment" by blast
  from Cons.IH obtain frags where
    fr: "join_colorize ps weight_range = Inr (concat frags)" "length frags = length ps"
        "\<forall>i < length ps.
           colorize NpFloat64 [fst (ps ! i)] (snd (ps ! i)) weight_range = Inr (frags ! i)"
    by blast
  have "join_colorize (p # ps) weight_range = Inr (concat (fragment # frags))"
    by (simp add: p f fr(1))
  moreover have "length (fragment # frags) = length (p # ps)" by (simp add: fr(2))
  moreover have "\<forall>i < length (p # ps).
      colorize NpFloat64 [fst ((p # ps) ! i)] (snd ((p # ps) ! i)) weight_range
        = Inr ((fragment # frags) ! i)"
  proof (intro allI impI)
    fix i assume "i < length (p # ps)"
    then show "colorize NpFloat64 [fst ((p # ps) ! i)] (snd ((p # ps) ! i)) weight_range
                 = Inr ((fragment # frags) ! i)"
      using f fr(3) by (cases i) (simp_all add: p)
  qed
  ultimately show ?case by blast
qed

lemma str_nat_more: "str_nat (Suc 0) = ''1''" "str_nat 2 = ''2''" "str_nat 60 = ''60''"
  by (simp_all add: str_nat.simps digit_char_def)

lemma replicate_zeros: "replicate 2 c = [c, c]" "replicate (Suc 0) c = [c]"
  by (simp_all add: numeral_2_eq_2)

lemma format_samples:
  "format_fixed 2 1 = ''1.00''" "format_fixed 2 (4 / 5) = ''0.80''"
  "format_fixed 3 2 = ''2.000''"
  "hsl_format 120 1 (Fin (3 / 5)) = ''hsl(120, 100.00%, 60.00%)''"
  by (simp_all add: hsl_format_def format_float_percent_def format_percent_def format_fixed_def
      str_int_def round_half_even_def str_nat_samples str_nat_more replicate_zeros)

text \<open>
  Escaping works character by character, its result is escaped text, and it commutes
  with the replacement of the runs of spaces.
\<close>

lemma replace_char_Nil: "replace_char c r [] = []"
  by (simp add: replace_char_def)

lemma replace_char_Cons:
  "replace_char c r (x # xs) = (if x = c then r else [x]) @ replace_char c r xs"
  by (simp add: replace_char_def)

lemma replace_char_append:
  "replace_char c r (xs @ ys) = replace_char c r xs @ replace_char c r ys"
  by (simp add: replace_char_def)

lemma html_escape_Nil: "html_escape [] = []"
  by (simp add: html_escape_def replace_char_Nil)

lemma html_escape_Cons: "html_escape (c # cs) = escape_char c @ html_escape cs"
  by (simp add: html_escape_def escape_char_def replace_char_Cons replace_char_append
      replace_char_Nil)

lemma html_escape_chars: "html_escape s = concat (map escape_char s)"
  by (induction s) (simp_all add: html_escape_Nil html_escape_Cons)

lemma escaped_append: "escaped a \<Longrightarrow> escaped b \<Longrightarrow> escaped (a @ b)"
proof (induction a)
  case Nil
  then show ?case by simp
next
  case (Cons c a)
  then have tl: "escaped (a @ b)" by simp
  show ?case
  proof (cases "c = CHR ''&''")
    case True
    with Cons.prems(1) obtain e where e: "e \<in> set entities" "take (length e) (c # a) = e"
      by (auto simp: list_ex_iff)
    from e(2) have "min (length (c # a)) (length e) = length e"
      by (metis length_take)
    then have le: "length e - length (c # a) = 0" by linarith
    have "take (length e) ((c # a) @ b)
            = take (length e) (c # a) @ take (length e - length (c # a)) b"
      by (rule take_append)
    also have "\<dots> = e" unfolding le e(2) by simp
    finally have "take (length e) (c # a @ b) = e" by simp
    with e(1) have "list_ex (\<lambda>e. take (length e) (c # a @ b) = e) entities"
      unfolding list_ex_iff by blast
    with True tl show ?thesis by simp
  next
    case False
    with Cons.prems(1) tl show ?thesis by simp
  qed
qed

lemma escaped_escape_char: "escaped (escape_char c)"
  by (simp add: escape_char_def entities_def)

lemma escaped_html_escape: "escaped (html_escape s)"
  by (induction s)
    (simp_all add: html_escape_Nil html_escape_Cons escaped_append escaped_escape_char)


lemma escape_char_space: "is_space c \<Longrightarrow> escape_char c = [c]"
  by (simp add: is_space_def escape_char_def)

lemma escape_char_no_space:
  "\<not> is_space c \<Longrightarrow> escape_char c \<noteq> [] \<and> (\<forall>x \<in> set (escape_char c). \<not> is_space x)"
  by (simp add: is_space_def escape_char_def)

lemma replace_spaces_from_text:
  assumes "\<forall>x \<in> set t. \<not> is_space x" and "t \<noteq> []"
  shows "replace_spaces_from b (t @ u) rep = t @ replace_spaces_from False u rep"
  using assms
proof (induction t arbitrary: b)
  case Nil
  then show ?case by simp
next
  case (Cons d ds)
  show ?case
  proof (cases "ds = []")
    case True
    with Cons.prems show ?thesis by simp
  next
    case False
    with Cons.prems Cons.IH [of False] show ?thesis by simp
  qed
qed

lemma takeWhile_space_html_escape:
  "takeWhile is_space (html_escape cs) = takeWhile is_space cs"
proof (induction cs)
  case Nil
  then show ?case by (simp add: html_escape_Nil)
next
  case (Cons c cs)
  show ?case
  proof (cases "is_space c")
    case True
    with Cons.IH show ?thesis by (simp add: html_escape_Cons escape_char_space)
  next
    case False
    from escape_char_no_space [OF False] obtain d ds where
      d: "escape_char c = d # ds" "\<not> is_space d" by (cases "escape_char c") auto
    with False show ?thesis by (simp add: html_escape_Cons)
  qed
qed

lemma dropWhile_space_html_escape:
  "dropWhile is_space (html_escape cs) = html_escape (dropWhile is_space cs)"
proof (induction cs)
  case Nil
  then show ?case by (simp add: html_escape_Nil)
next
  case (Cons c cs)
  show ?case
  proof (cases "is_space c")
    case True
    with Cons.IH show ?thesis by (simp add: html_escape_Cons escape_char_space)
  next
    case False
    from escape_char_no_space [OF False] obtain d ds where
      d: "escape_char c = d # ds" "\<not> is_space d" by (cases "escape_char c") auto
    with False show ?thesis by (simp add: html_escape_Cons)
  qed
qed

lemma html_escape_eq_Nil: "html_escape s = [] \<longleftrightarrow> s = []"
  by (cases s) (simp_all add: html_escape_Nil html_escape_Cons escape_char_def)

lemma replace_spaces_html_escape:
  "replace_spaces_from b (html_escape s) rep = highlight_escaped rep b s"
proof (induction s arbitrary: b rule: length_induct)
  case (1 s)
  show ?case
  proof (cases s)
    case Nil
    then show ?thesis by (simp add: html_escape_Nil)
  next
    case (Cons c cs)
    show ?thesis
    proof (cases "is_space c")
      case True
      let ?rest = "dropWhile is_space cs"
      have "length ?rest < length s" by (simp add: Cons length_dropWhile_le less_Suc_eq_le)
      with 1 have ih: "replace_spaces_from False (html_escape ?rest) rep
                        = highlight_escaped rep False ?rest" by blast
      have "html_escape s = c # html_escape cs"
        using True by (simp add: Cons html_escape_Cons escape_char_space)
      then show ?thesis
        using True ih
        by (simp add: Cons Let_def takeWhile_space_html_escape dropWhile_space_html_escape
            html_escape_eq_Nil)
    next
      case False
      have "length cs < length s" by (simp add: Cons)
      with 1 have ih: "replace_spaces_from False (html_escape cs) rep
                        = highlight_escaped rep False cs" by blast
      from escape_char_no_space [OF False]
      have "replace_spaces_from b (escape_char c @ html_escape cs) rep
              = escape_char c @ replace_spaces_from False (html_escape cs) rep"
        by (intro replace_spaces_from_text) simp_all
      with False ih show ?thesis by (simp add: Cons html_escape_Cons)
    qed
  qed
qed


lemma escaped_join:
  "\<forall>x \<in> set xs. escaped x \<Longrightarrow> escaped sep \<Longrightarrow> escaped (join sep xs)"
  by (induction sep xs rule: join.induct) (simp_all add: escaped_append)

lemma escaped_signed_all:
  "list_all (\<lambda>x. name x \<noteq> None \<and> sign x \<noteq> None) fs \<Longrightarrow>
   escaped_signed fs =
     Inr (map (\<lambda>f. html_escape ((if the (sign f) < 0 then ''-'' else []) @ the (name f))) fs)"
  by (induction fs) (auto simp: format_signed_def)

lemma colorize_shape:
  \<open>(\<exists>e. \<forall>token. colorize k token weight weight_range = Inl e)
   \<or> (\<exists>attrs. \<forall>token. colorize k token weight weight_range =
         Inr (''<span '' @ attrs @ ''>'' @ html_escape token @ ''</span>''))\<close>
proof (cases "isclose weight 0")
  case True
  show ?thesis
  proof (cases "weight_opacity k weight weight_range")
    case (Inl e)
    with True have "\<forall>token. colorize k token weight weight_range = Inl e"
      by (simp add: colorize_def)
    then show ?thesis by blast
  next
    case (Inr opacity)
    with True have \<open>\<forall>token. colorize k token weight weight_range =
         Inr (''<span '' @ (''style="opacity: '' @ opacity @ ''"'') @ ''>'' @
              html_escape token @ ''</span>'')\<close>
      by (simp add: colorize_def)
    then show ?thesis by blast
  qed
next
  case False
  show ?thesis
  proof (cases "weight_color k weight weight_range 0.6")
    case (Inl e)
    with False have "\<forall>token. colorize k token weight weight_range = Inl e"
      by (simp add: colorize_def)
    then show ?thesis by blast
  next
    case color: (Inr color)
    show ?thesis
    proof (cases "weight_opacity k weight weight_range")
      case (Inl e)
      with False color have "\<forall>token. colorize k token weight weight_range = Inl e"
        by (simp add: colorize_def)
      then show ?thesis by blast
    next
      case (Inr opacity)
      with False color have \<open>\<forall>token. colorize k token weight weight_range =
           Inr (''<span '' @
                (''style="background-color: '' @ color @ ''; opacity: '' @ opacity @ ''" '' @
                 ''title="'' @ format_fixed 3 weight @ ''"'') @
                ''>'' @ html_escape token @ ''</span>'')\<close>
        by (simp add: colorize_def)
      then show ?thesis by blast
    qed
  qed
qed

section \<open>Properties\<close>

subsection \<open>The accumulated character weights\<close>

text \<open>
  Claim C1. The spec computes the contribution of every range from a fresh copy of the
  span's weight, so that each range of a span adds the weight divided by the range
  length (under density preservation) and by the feature count, whatever the number or
  order of the ranges. The code divides the loop variable in place instead, so the
  second range of a span starts from the weight the first range left: for the document
  \<open>abcd\<close>, one span of weight 4 with the ranges (0,2) and (2,4) and density preserved,
  the array is [2, 2, 1, 1] and not [2, 2, 2, 2], and swapping the two ranges gives
  [1, 1, 2, 2]. The two scenarios of the claim, which have one range per span, come
  out as stated: [2, 0] and [0.5, 0.5].
\<close>

theorem char_weights_ranges_compound:
  "char_weights_of (Some True)
     \<lparr>analyzer = ''word'', document = ''abcd'', weighted_spans = [(''f'', [(0, 2), (2, 4)], 4)]\<rparr>
     = Inr [2, 2, 1, 1]
   \<and> char_weights_of (Some True)
     \<lparr>analyzer = ''word'', document = ''abcd'', weighted_spans = [(''f'', [(2, 4), (0, 2)], 4)]\<rparr>
     = Inr [1, 1, 2, 2]
   \<and> char_weights_of (Some False)
     \<lparr>analyzer = ''word'', document = ''ab'', weighted_spans = [(''f'', [(0, 1)], 2)]\<rparr>
     = Inr [2, 0]
   \<and> char_weights_of (Some False)
     \<lparr>analyzer = ''word'', document = ''ab'',
      weighted_spans = [(''f'', [(0, 1)], 1), (''f'', [(1, 2)], 1)]\<rparr>
     = Inr [1 / 2, 1 / 2]"
  by code_simp

text \<open>
  Claim C3. The spec asks that an empty document, or a document without weighted
  spans, be rendered safely: without a raise and without an unguarded division by a
  zero range. For the empty document the maximum of an empty sequence raises
  ValueError. For a document of one character and no spans nothing raises, but the
  weight range is 0 and the opacity is the unguarded quotient 0/0 of two numpy scalars:
  the markup that is returned has the opacity \<open>nan\<close>.
\<close>

theorem render_weighted_spans_empty_unsafe:
  \<open>render_weighted_spans pd \<lparr>analyzer = a, document = [], weighted_spans = []\<rparr> = Inl ValueError
   \<and> render_weighted_spans pd \<lparr>analyzer = a, document = ''a'', weighted_spans = []\<rparr>
       = Inr ''<span style="opacity: nan">a</span>''\<close>
  by (simp add: render_weighted_spans_def char_weights_of_def py_max_def colorize_def
      isclose_def weight_opacity_def float_div_def format_float_def html_escape_def
      replace_char_def)

text \<open>
  Claim C5. When \<^verbatim>\<open>preserve_density\<close> is None, it is chosen true exactly when the
  analyzer starts with \<open>char\<close>: true for \<open>char\<close> and \<open>char_wb\<close>, false for \<open>word\<close>;
  the rendering is the one of that explicit choice.
\<close>

theorem preserve_density_default:
  "preserve_density_of None wsd = startswith (analyzer wsd) ''char''
   \<and> char_weights_of None wsd = char_weights_of (Some (startswith (analyzer wsd) ''char'')) wsd
   \<and> render_weighted_spans None wsd
       = render_weighted_spans (Some (startswith (analyzer wsd) ''char'')) wsd
   \<and> preserve_density_of None (wsd\<lparr>analyzer := ''char''\<rparr>)
   \<and> preserve_density_of None (wsd\<lparr>analyzer := ''char_wb''\<rparr>)
   \<and> \<not> preserve_density_of None (wsd\<lparr>analyzer := ''word''\<rparr>)"
  by (simp add: preserve_density_of_def char_weights_of_def render_weighted_spans_def startswith_def)

subsection \<open>Feature labels\<close>

text \<open>
  Claim C10. The empty list, given as a feature, takes the branch of the unhashed
  features, since the check on its elements holds of none, and is formatted as the
  empty string whatever the weight and the space highlighting.
\<close>

theorem format_feature_empty_list:
  "format_feature (Candidates []) weight hl_spaces = format_unhashed_feature [] weight hl_spaces
   \<and> format_feature (Candidates []) weight hl_spaces = Inr []"
  by (simp add: format_feature_def format_unhashed_feature_def)

subsection \<open>Colour mapping\<close>

text \<open>
  Claim C6. The colour of the row of remaining weights follows three cases in order:
  with no remaining weights and a zero range it is the colour of the weight \<open>sign\<close>
  (+1 for \<open>pos\<close>, -1 for \<open>neg\<close>) in the range 1; with no remaining weights and a
  nonzero range it is the colour of \<open>sign * weight_range\<close>; otherwise it is the colour
  of a remaining weight of least magnitude. For no weights, range 0 and \<open>pos\<close> this
  is the colour of weight +1 in range 1, the green of full saturation.
\<close>

theorem remaining_weight_color_policy:
  assumes "sign_of pos_neg = Inr sg"
  shows "(weight_range = 0 \<longrightarrow>
            remaining_weight_color k [] weight_range pos_neg = weight_color PyFloat sg 1 0.8)
       \<and> (weight_range \<noteq> 0 \<longrightarrow>
            remaining_weight_color k [] weight_range pos_neg
              = weight_color k (sg * weight_range) weight_range 0.8)
       \<and> (ws \<noteq> [] \<longrightarrow>
            (\<exists>w \<in> snd ` set ws. (\<forall>c \<in> snd ` set ws. \<bar>w\<bar> \<le> \<bar>c\<bar>)
               \<and> remaining_weight_color k ws weight_range pos_neg
                   = weight_color k w weight_range 0.8))
       \<and> sign_of ''pos'' = Inr 1 \<and> sign_of ''neg'' = Inr (- 1)
       \<and> remaining_weight_color k [] 0 ''pos'' = weight_color PyFloat 1 1 0.8
       \<and> weight_color k 1 1 0.8 = Inr ''hsl(120, 100.00%, 80.00%)''"
proof -
  have a: "weight_range = 0 \<longrightarrow>
            remaining_weight_color k [] weight_range pos_neg = weight_color PyFloat sg 1 0.8"
    using assms by (simp add: remaining_weight_color_def)
  have b: "weight_range \<noteq> 0 \<longrightarrow>
            remaining_weight_color k [] weight_range pos_neg
              = weight_color k (sg * weight_range) weight_range 0.8"
    using assms by (simp add: remaining_weight_color_def)
  have c: "ws \<noteq> [] \<longrightarrow>
            (\<exists>w \<in> snd ` set ws. (\<forall>c \<in> snd ` set ws. \<bar>w\<bar> \<le> \<bar>c\<bar>)
               \<and> remaining_weight_color k ws weight_range pos_neg
                   = weight_color k w weight_range 0.8)"
  proof
    assume "ws \<noteq> []"
    then obtain p rest where ws: "ws = p # rest" by (cases ws) auto
    let ?m = "min_abs_from (snd p) (map snd rest)"
    have r: "remaining_weight_color k ws weight_range pos_neg = weight_color k ?m weight_range 0.8"
      using assms by (simp add: remaining_weight_color_def min_key_abs_def ws)
    from min_abs_from_least [of "snd p" "map snd rest"]
    have "?m \<in> snd ` set ws" "\<forall>c \<in> snd ` set ws. \<bar>?m\<bar> \<le> \<bar>c\<bar>"
      by (auto simp: ws)
    with r show "\<exists>w \<in> snd ` set ws. (\<forall>c \<in> snd ` set ws. \<bar>w\<bar> \<le> \<bar>c\<bar>)
               \<and> remaining_weight_color k ws weight_range pos_neg
                   = weight_color k w weight_range 0.8"
      by blast
  qed
  have d: "sign_of ''pos'' = Inr 1" "sign_of ''neg'' = Inr (- 1)"
    by (simp_all add: sign_of_def)
  have e: "remaining_weight_color k [] 0 ''pos'' = weight_color PyFloat 1 1 0.8"
    by (simp add: remaining_weight_color_def d)
  have f: "weight_color k 1 1 0.8 = Inr ''hsl(120, 100.00%, 80.00%)''"
    using hsl_format_green by (simp add: weight_color_finite hue_def)
  from a b c d e f show ?thesis by blast
qed

theorem remaining_weight_color_policy_witness:
  "sign_of ''neg'' = Inr (- 1)
   \<and> remaining_weight_color PyFloat [] 2 ''neg'' = weight_color PyFloat (- 2) 2 0.8
   \<and> (\<exists>w \<in> {3, - 1}. remaining_weight_color PyFloat [(''a'', 3), (''b'', - 1)] 2 ''neg''
         = weight_color PyFloat w 2 0.8)"
proof -
  have h: "sign_of ''neg'' = Inr (- 1)" by (simp add: sign_of_def)
  note t = remaining_weight_color_policy [OF h, where weight_range = 2
      and ws = "[(''a'', 3), (''b'', - 1)]" and k = PyFloat]
  from t have "(2::real) \<noteq> 0 \<longrightarrow>
      remaining_weight_color PyFloat [] 2 ''neg'' = weight_color PyFloat (- 1 * 2) 2 0.8" by blast
  then have one: "remaining_weight_color PyFloat [] 2 ''neg'' = weight_color PyFloat (- 2) 2 0.8"
    by simp
  from t have "[(''a'', 3::real), (''b'', - 1)] \<noteq> [] \<longrightarrow>
      (\<exists>w \<in> snd ` set [(''a'', 3), (''b'', - 1)].
         (\<forall>c \<in> snd ` set [(''a'', 3), (''b'', - 1)]. \<bar>w\<bar> \<le> \<bar>c\<bar>)
         \<and> remaining_weight_color PyFloat [(''a'', 3), (''b'', - 1)] 2 ''neg''
             = weight_color PyFloat w 2 0.8)"
    by blast
  then have two: "\<exists>w \<in> {3, - 1}.
      remaining_weight_color PyFloat [(''a'', 3), (''b'', - 1)] 2 ''neg''
         = weight_color PyFloat w 2 0.8" by auto
  from h one two show ?thesis by blast
qed

text \<open>
  Claim C8. For a positive range and a weight of magnitude at most the range, the
  opacity is 0.8 + 0.2 * (|weight| / weight_range), which lies between 0.8 and 1.0
  inclusive. The function returns this value printed with two decimals, and the
  printed hundredths lie between 80 and 100 as well.
\<close>

theorem weight_opacity_range:
  assumes "0 < weight_range" and "\<bar>weight\<bar> \<le> weight_range"
  shows "\<exists>v. weight_opacity k weight weight_range = Inr (format_fixed 2 v)
           \<and> v = 0.8 + 0.2 * (\<bar>weight\<bar> / weight_range)
           \<and> 0.8 \<le> v \<and> v \<le> 1.0
           \<and> 80 \<le> round_half_even (\<bar>v\<bar> * 10 ^ 2) \<and> round_half_even (\<bar>v\<bar> * 10 ^ 2) \<le> 100"
proof -
  let ?rel = "\<bar>weight\<bar> / weight_range"
  let ?v = "0.8 + 0.2 * ?rel"
  have rel: "0 \<le> ?rel" "?rel \<le> 1" using assms by simp_all
  have w: "weight_opacity k weight weight_range = Inr (format_fixed 2 ?v)"
    using assms(1) by (simp add: weight_opacity_finite)
  have b: "0.8 \<le> ?v" "?v \<le> 1.0" using rel by simp_all
  then have "real_of_int 80 \<le> \<bar>?v\<bar> * 10 ^ 2" "\<bar>?v\<bar> * 10 ^ 2 \<le> real_of_int 100"
    by (simp_all add: abs_if)
  from round_half_even_bounds [OF this] w b show ?thesis by blast
qed

theorem weight_opacity_range_witness:
  "(0::real) < 2 \<and> \<bar>- 1::real\<bar> \<le> 2
   \<and> (\<exists>v. weight_opacity NpFloat64 (- 1) 2 = Inr (format_fixed 2 v)
           \<and> v = 0.8 + 0.2 * (\<bar>- 1\<bar> / 2)
           \<and> 0.8 \<le> v \<and> v \<le> 1.0
           \<and> 80 \<le> round_half_even (\<bar>v\<bar> * 10 ^ 2) \<and> round_half_even (\<bar>v\<bar> * 10 ^ 2) \<le> 100)"
proof -
  have h1: "(0::real) < 2" by simp
  have h2: "\<bar>- 1::real\<bar> \<le> 2" by simp
  show ?thesis
    by (rule conjI [OF h1 conjI [OF h2 weight_opacity_range [OF h1 h2, of NpFloat64]]])
qed

text \<open>
  Claim C9. For a nonzero weight and a positive range, the colours of the weight and of
  its negation have the hues 120 (the positive one) and 0 (the negative one), and the
  same saturation and lightness: the saturation is fixed and the lightness depends on
  the magnitude only.
\<close>

theorem weight_color_sign_symmetry:
  assumes "weight \<noteq> 0" and "0 < weight_range"
  shows "\<exists>saturation lightness.
           weight_color k \<bar>weight\<bar> weight_range min_lightness
             = Inr (hsl_format 120 saturation (Fin lightness))
         \<and> weight_color k (- \<bar>weight\<bar>) weight_range min_lightness
             = Inr (hsl_format 0 saturation (Fin lightness))
         \<and> saturation = 1
         \<and> lightness = 1 - (1 - min_lightness) * (\<bar>weight\<bar> / weight_range) powr 0.7"
  using assms by (simp add: weight_color_finite hue_def)

theorem weight_color_sign_symmetry_witness:
  "(- 3::real) \<noteq> 0 \<and> (0::real) < 4
   \<and> (\<exists>saturation lightness.
           weight_color PyFloat \<bar>- 3\<bar> 4 0.6 = Inr (hsl_format 120 saturation (Fin lightness))
         \<and> weight_color PyFloat (- \<bar>- 3\<bar>) 4 0.6 = Inr (hsl_format 0 saturation (Fin lightness))
         \<and> saturation = 1
         \<and> lightness = 1 - (1 - 0.6) * (\<bar>- 3\<bar> / 4) powr 0.7)"
proof -
  have h1: "(- 3::real) \<noteq> 0" by simp
  have h2: "(0::real) < 4" by simp
  show ?thesis
    by (rule conjI [OF h1 conjI [OF h2 weight_color_sign_symmetry [OF h1 h2, of PyFloat "0.6"]]])
qed

subsection \<open>The top target\<close>

text \<open>
  Claim C7, as stated, promises a target whenever every target has a probability. That
  holds of the empty list, for which the code raises: the maximum of an empty sequence
  is a ValueError.
\<close>

theorem get_top_target_empty_raises:
  "list_all (\<lambda>t. proba t \<noteq> None) [] \<and> get_top_target [] = Inl ValueError"
  by (simp add: get_top_target_def max_by_def)

text \<open>
  Claim C7, amended. For a list of targets that is not empty: if every target has a
  probability, the result is the first target of greatest probability (every target
  before it has a smaller one, none after it a greater one); otherwise, if every target
  has a score, the first target of greatest score; otherwise nothing. For the
  probabilities 0.3, 0.9, 0.9 it is the second target.
\<close>

theorem get_top_target_nonempty:
  assumes "targets \<noteq> []"
  shows "(list_all (\<lambda>t. proba t \<noteq> None) targets \<longrightarrow>
            (\<exists>t ys zs. get_top_target targets = Inr (Some t) \<and> targets = ys @ t # zs
               \<and> (\<forall>y \<in> set ys. the (proba y) < the (proba t))
               \<and> (\<forall>z \<in> set zs. the (proba z) \<le> the (proba t))))
       \<and> (\<not> list_all (\<lambda>t. proba t \<noteq> None) targets \<and> list_all (\<lambda>t. score t \<noteq> None) targets \<longrightarrow>
            (\<exists>t ys zs. get_top_target targets = Inr (Some t) \<and> targets = ys @ t # zs
               \<and> (\<forall>y \<in> set ys. the (score y) < the (score t))
               \<and> (\<forall>z \<in> set zs. the (score z) \<le> the (score t))))
       \<and> (\<not> list_all (\<lambda>t. proba t \<noteq> None) targets \<and> \<not> list_all (\<lambda>t. score t \<noteq> None) targets \<longrightarrow>
            get_top_target targets = Inr None)
       \<and> (proba t1 = Some 0.3 \<and> proba t2 = Some 0.9 \<and> proba t3 = Some 0.9 \<longrightarrow>
            get_top_target [t1, t2, t3] = Inr (Some t2))"
proof -
  have a: "list_all (\<lambda>t. proba t \<noteq> None) targets \<longrightarrow>
            (\<exists>t ys zs. get_top_target targets = Inr (Some t) \<and> targets = ys @ t # zs
               \<and> (\<forall>y \<in> set ys. the (proba y) < the (proba t))
               \<and> (\<forall>z \<in> set zs. the (proba z) \<le> the (proba t)))"
  proof
    assume h: "list_all (\<lambda>t. proba t \<noteq> None) targets"
    from max_by_first [OF assms, of "\<lambda>t. the (proba t)"] obtain t ys zs where
      m: "max_by (\<lambda>t. the (proba t)) targets = Inr t" "targets = ys @ t # zs"
         "\<forall>y \<in> set ys. the (proba y) < the (proba t)"
         "\<forall>z \<in> set zs. the (proba z) \<le> the (proba t)" by blast
    have "get_top_target targets = Inr (Some t)"
      using h m(1) by (simp add: get_top_target_def)
    with m(2,3,4) show "\<exists>t ys zs. get_top_target targets = Inr (Some t) \<and> targets = ys @ t # zs
               \<and> (\<forall>y \<in> set ys. the (proba y) < the (proba t))
               \<and> (\<forall>z \<in> set zs. the (proba z) \<le> the (proba t))" by blast
  qed
  have b: "\<not> list_all (\<lambda>t. proba t \<noteq> None) targets \<and> list_all (\<lambda>t. score t \<noteq> None) targets \<longrightarrow>
            (\<exists>t ys zs. get_top_target targets = Inr (Some t) \<and> targets = ys @ t # zs
               \<and> (\<forall>y \<in> set ys. the (score y) < the (score t))
               \<and> (\<forall>z \<in> set zs. the (score z) \<le> the (score t)))"
  proof
    assume h: "\<not> list_all (\<lambda>t. proba t \<noteq> None) targets \<and> list_all (\<lambda>t. score t \<noteq> None) targets"
    from max_by_first [OF assms, of "\<lambda>t. the (score t)"] obtain t ys zs where
      m: "max_by (\<lambda>t. the (score t)) targets = Inr t" "targets = ys @ t # zs"
         "\<forall>y \<in> set ys. the (score y) < the (score t)"
         "\<forall>z \<in> set zs. the (score z) \<le> the (score t)" by blast
    have "get_top_target targets = Inr (Some t)"
      using h m(1) by (simp add: get_top_target_def)
    with m(2,3,4) show "\<exists>t ys zs. get_top_target targets = Inr (Some t) \<and> targets = ys @ t # zs
               \<and> (\<forall>y \<in> set ys. the (score y) < the (score t))
               \<and> (\<forall>z \<in> set zs. the (score z) \<le> the (score t))" by blast
  qed
  have c: "\<not> list_all (\<lambda>t. proba t \<noteq> None) targets \<and> \<not> list_all (\<lambda>t. score t \<noteq> None) targets \<longrightarrow>
            get_top_target targets = Inr None"
    by (simp add: get_top_target_def)
  have d: "proba t1 = Some 0.3 \<and> proba t2 = Some 0.9 \<and> proba t3 = Some 0.9 \<longrightarrow>
            get_top_target [t1, t2, t3] = Inr (Some t2)"
  proof
    assume h: "proba t1 = Some 0.3 \<and> proba t2 = Some 0.9 \<and> proba t3 = Some 0.9"
    then have p: "proba t1 = Some 0.3" "proba t2 = Some 0.9" "proba t3 = Some 0.9"
      by blast+
    have "list_all (\<lambda>t. proba t \<noteq> None) [t1, t2, t3]"
      by (simp only: p list.pred_inject option.distinct simp_thms)
    moreover have "max_by (\<lambda>t. the (proba t)) [t1, t2, t3] = Inr t2"
      by (simp add: max_by_def p)
    ultimately show "get_top_target [t1, t2, t3] = Inr (Some t2)"
      by (simp add: get_top_target_def)
  qed
  from a b c d show ?thesis by blast
qed

theorem get_top_target_nonempty_witness:
  "[\<lparr>target = ''a'', proba = Some 0.3, score = None\<rparr>,
    \<lparr>target = ''b'', proba = Some 0.9, score = None\<rparr>,
    \<lparr>target = ''c'', proba = Some 0.9, score = None\<rparr>] \<noteq> []
   \<and> get_top_target
        [\<lparr>target = ''a'', proba = Some 0.3, score = None\<rparr>,
         \<lparr>target = ''b'', proba = Some 0.9, score = None\<rparr>,
         \<lparr>target = ''c'', proba = Some 0.9, score = None\<rparr>]
       = Inr (Some \<lparr>target = ''b'', proba = Some 0.9, score = None\<rparr>)"
proof -
  let ?a = "\<lparr>target = ''a'', proba = Some 0.3, score = None\<rparr>"
  let ?b = "\<lparr>target = ''b'', proba = Some 0.9, score = None\<rparr>"
  let ?c = "\<lparr>target = ''c'', proba = Some 0.9, score = None\<rparr>"
  have ne: "[?a, ?b, ?c] \<noteq> []" by simp
  have p: "proba ?a = Some 0.3 \<and> proba ?b = Some 0.9 \<and> proba ?c = Some 0.9" by simp
  from get_top_target_nonempty [OF ne, of ?a ?b ?c]
  have "proba ?a = Some 0.3 \<and> proba ?b = Some 0.9 \<and> proba ?c = Some 0.9 \<longrightarrow>
          get_top_target [?a, ?b, ?c] = Inr (Some ?b)" by blast
  from this [THEN mp, OF p] ne show ?thesis by (rule conjI [rotated])
qed

subsection \<open>Token colouring\<close>

text \<open>
  Claim C4. \<open>colorize\<close> compares the weight with 0 up to the tolerance 1e-08: a
  weight within it gives a span with an opacity style only, any other weight a span
  with a background colour of minimal lightness 0.6, an opacity, and the weight
  printed with three decimals as the title. For the numpy scalars that
  \<open>render_weighted_spans\<close> passes this holds whatever the range: at the zero range of
  a document in which no span matched the span is the one of opacity \<open>nan\<close>. For a
  positive range the colour and the opacity are the ones written out, for either kind
  of operands. The rendering of a document is the concatenation of the fragments of
  its characters, one for each character and in their order.
\<close>

theorem colorize_fragments:
  \<open>isclose weight 0 = (\<bar>weight\<bar> \<le> 1 / 10 ^ 8)
     \<and> (isclose weight 0 \<longrightarrow>
          (\<exists>opacity. weight_opacity NpFloat64 weight weight_range = Inr opacity
             \<and> colorize NpFloat64 token weight weight_range =
                 Inr (''<span style="opacity: '' @ opacity @
                      ''">'' @ html_escape token @ ''</span>'')))
     \<and> (\<not> isclose weight 0 \<longrightarrow>
          (\<exists>color opacity. weight_color NpFloat64 weight weight_range 0.6 = Inr color
             \<and> weight_opacity NpFloat64 weight weight_range = Inr opacity
             \<and> colorize NpFloat64 token weight weight_range =
                 Inr (''<span style="background-color: '' @ color @
                      ''; opacity: '' @ opacity @
                      ''" title="'' @ format_fixed 3 weight @
                      ''">'' @ html_escape token @ ''</span>'')))
     \<and> colorize NpFloat64 token 0 0 =
          Inr (''<span style="opacity: nan">'' @ html_escape token @ ''</span>'')
     \<and> (0 < weight_range \<and> isclose weight 0 \<longrightarrow>
          colorize k token weight weight_range =
            Inr (''<span style="opacity: '' @
                 format_fixed 2 (0.8 + 0.2 * (\<bar>weight\<bar> / weight_range)) @
                 ''">'' @ html_escape token @ ''</span>''))
     \<and> (0 < weight_range \<and> \<not> isclose weight 0 \<longrightarrow>
          colorize k token weight weight_range =
            Inr (''<span style="background-color: '' @
                 hsl_format (hue weight) 1
                   (Fin (1 - (1 - 0.6) * (\<bar>weight\<bar> / weight_range) powr 0.7)) @
                 ''; opacity: '' @
                 format_fixed 2 (0.8 + 0.2 * (\<bar>weight\<bar> / weight_range)) @
                 ''" title="'' @ format_fixed 3 weight @
                 ''">'' @ html_escape token @ ''</span>''))
     \<and> (char_weights_of pd wsd = Inr cw \<and> py_max (map abs cw) = Inr r \<longrightarrow>
          (\<exists>frags. render_weighted_spans pd wsd = Inr (concat frags)
             \<and> length frags = length (document wsd)
             \<and> (\<forall>i < length (document wsd).
                   colorize NpFloat64 [document wsd ! i] (cw ! i) r = Inr (frags ! i))))\<close>
proof -
  have a: "isclose weight 0 = (\<bar>weight\<bar> \<le> 1 / 10 ^ 8)" by (simp add: isclose_def)
  have z: \<open>colorize NpFloat64 token 0 0 =
          Inr (''<span style="opacity: nan">'' @ html_escape token @ ''</span>'')\<close>
    by (simp add: colorize_def isclose_def weight_opacity_def float_div_def format_float_def)
  have d: "\<exists>frags. render_weighted_spans pd wsd = Inr (concat frags)
             \<and> length frags = length (document wsd)
             \<and> (\<forall>i < length (document wsd).
                   colorize NpFloat64 [document wsd ! i] (cw ! i) r = Inr (frags ! i))"
    if h: "char_weights_of pd wsd = Inr cw \<and> py_max (map abs cw) = Inr r"
  proof -
    let ?ps = "zip (document wsd) cw"
    have len: "length cw = length (document wsd)"
      using h char_weights_of_length by blast
    have r: "render_weighted_spans pd wsd = join_colorize ?ps r"
      using h by (simp add: render_weighted_spans_def)
    from join_colorize_fragments [of ?ps r] obtain frags where
      fr: "join_colorize ?ps r = Inr (concat frags)" "length frags = length ?ps"
          "\<forall>i < length ?ps. colorize NpFloat64 [fst (?ps ! i)] (snd (?ps ! i)) r = Inr (frags ! i)"
      by blast
    have "\<forall>i < length (document wsd).
            colorize NpFloat64 [document wsd ! i] (cw ! i) r = Inr (frags ! i)"
      using fr(3) len by simp
    with r fr(1,2) len show ?thesis by auto
  qed
  from a z d
    colorize_numpy_neutral [of weight weight_range token]
    colorize_numpy_coloured [of weight weight_range token]
    colorize_neutral [of weight_range weight k token]
    colorize_coloured [of weight_range weight k token]
  show ?thesis by blast
qed

theorem colorize_fragments_witness:
  \<open>(0::real) < 2
   \<and> colorize NpFloat64 ''a'' 2 2 =
       Inr ''<span style="background-color: hsl(120, 100.00%, 60.00%); opacity: 1.00" title="2.000">a</span>''
   \<and> colorize NpFloat64 ''b'' 0 2 = Inr ''<span style="opacity: 0.80">b</span>''
   \<and> colorize NpFloat64 ''a'' 0 0 = Inr ''<span style="opacity: nan">a</span>''
   \<and> render_weighted_spans (Some False)
        \<lparr>analyzer = ''word'', document = ''ab'', weighted_spans = [(''f'', [(0, 1)], 2)]\<rparr> =
       Inr (''<span style="background-color: hsl(120, 100.00%, 60.00%); opacity: 1.00" title="2.000">a</span>'' @
            ''<span style="opacity: 0.80">b</span>'')\<close>
proof -
  let ?wsd = "\<lparr>analyzer = ''word'', document = ''ab'', weighted_spans = [(''f'', [(0, 1)], 2)]\<rparr>"
  have h: "(0::real) < 2" by simp
  have esc: "html_escape ''a'' = ''a''" "html_escape ''b'' = ''b''"
    by (simp_all add: html_escape_def replace_char_def)
  have cw: "char_weights_of (Some False) ?wsd = Inr [2, 0]" by code_simp
  have mx: "py_max (map abs [2, 0::real]) = Inr 2" by (simp add: py_max_def)
  have c2: "\<not> isclose 2 0" and c0: "isclose 0 0" by (simp_all add: isclose_def)
  note ta = colorize_fragments [where weight = 2 and weight_range = 2 and token = "''a''"
      and k = NpFloat64 and pd = "Some False" and wsd = ?wsd and cw = "[2, 0]" and r = 2]
  note tb = colorize_fragments [where weight = 0 and weight_range = 2 and token = "''b''"
      and k = NpFloat64]
  note tz = colorize_fragments [where token = "''a''"]
  from ta h c2 have \<open>colorize NpFloat64 ''a'' 2 2 =
      Inr (''<span style="background-color: '' @
           hsl_format (hue 2) 1 (Fin (1 - (1 - 0.6) * (\<bar>2\<bar> / 2) powr 0.7)) @
           ''; opacity: '' @ format_fixed 2 (0.8 + 0.2 * (\<bar>2\<bar> / 2)) @
           ''" title="'' @ format_fixed 3 2 @ ''">'' @ html_escape ''a'' @ ''</span>'')\<close>
    by blast
  then have fa: \<open>colorize NpFloat64 ''a'' 2 2 =
       Inr ''<span style="background-color: hsl(120, 100.00%, 60.00%); opacity: 1.00" title="2.000">a</span>''\<close>
    by (simp add: hue_def format_samples esc)
  from tb h c0 have \<open>colorize NpFloat64 ''b'' 0 2 =
      Inr (''<span style="opacity: '' @ format_fixed 2 (0.8 + 0.2 * (\<bar>0\<bar> / 2)) @
           ''">'' @ html_escape ''b'' @ ''</span>'')\<close>
    by blast
  then have fb: \<open>colorize NpFloat64 ''b'' 0 2 = Inr ''<span style="opacity: 0.80">b</span>''\<close>
    by (simp add: format_samples esc)
  from tz have \<open>colorize NpFloat64 ''a'' 0 0 =
      Inr (''<span style="opacity: nan">'' @ html_escape ''a'' @ ''</span>'')\<close>
    by blast
  then have fz: \<open>colorize NpFloat64 ''a'' 0 0 = Inr ''<span style="opacity: nan">a</span>''\<close>
    by (simp add: esc)
  from ta cw mx obtain frags where
    fr: "render_weighted_spans (Some False) ?wsd = Inr (concat frags)"
        "length frags = length (document ?wsd)"
        "\<forall>i < length (document ?wsd).
           colorize NpFloat64 [document ?wsd ! i] ([2, 0] ! i) 2 = Inr (frags ! i)"
    by blast
  from fr(2) obtain f0 f1 where fs: "frags = [f0, f1]"
    by (cases frags; cases "tl frags") auto
  from fr(3) have "colorize NpFloat64 ''a'' 2 2 = Inr f0" "colorize NpFloat64 ''b'' 0 2 = Inr f1"
    by (auto simp: fs dest: spec [of _ 0] spec [of _ 1])
  with fa fb fr(1) have \<open>render_weighted_spans (Some False) ?wsd =
       Inr (''<span style="background-color: hsl(120, 100.00%, 60.00%); opacity: 1.00" title="2.000">a</span>'' @
            ''<span style="opacity: 0.80">b</span>'')\<close>
    by (simp add: fs)
  with h fa fb fz show ?thesis by blast
qed

subsection \<open>Escaping\<close>

text \<open>
  Claim C2. \<open>html_escape\<close> replaces every \<open>&\<close>, \<open><\<close>, \<open>>\<close> and double quote by its
  entity and keeps every other character (the apostrophe among them, which
  \<^verbatim>\<open>cgi.escape\<close> does not translate), so that its result holds none of \<open><\<close>, \<open>>\<close>
  and the double quote, and no ampersand but the one that opens an entity. The text
  given to the markup functions reaches their result only through it: \<open>colorize\<close>
  wraps the escaped token in a span whose attributes do not depend on the token;
  \<open>format_single_feature\<close> returns the escaped feature, or, with highlighted spaces,
  the escaped characters of the feature between the markers of its runs of spaces;
  \<open>format_unhashed_feature\<close> returns the signed and so formatted first candidate,
  followed, if there are more, by a span whose title joins the escaped signed names of
  the others, and that title is escaped text.
\<close>

theorem markup_text_escaped:
  \<open>html_escape s = concat (map escape_char s)
   \<and> escape_char (CHR ''&'') = ''&amp;'' \<and> escape_char (CHR ''<'') = ''&lt;''
   \<and> escape_char (CHR ''>'') = ''&gt;'' \<and> escape_char (CHR 0x22) = ''&quot;''
   \<and> (c \<notin> {CHR ''&'', CHR ''<'', CHR ''>'', CHR 0x22} \<longrightarrow> escape_char c = [c])
   \<and> escaped (html_escape s)
   \<and> ((\<exists>e. \<forall>token. colorize k token weight weight_range = Inl e)
       \<or> (\<exists>attrs. \<forall>token. colorize k token weight weight_range =
             Inr (''<span '' @ attrs @ ''>'' @ html_escape token @ ''</span>'')))
   \<and> format_single_feature feat weight False = html_escape feat
   \<and> format_single_feature feat weight True = highlight_escaped (replacer weight) True feat
   \<and> (list_all (\<lambda>x. name x \<noteq> None \<and> sign x \<noteq> None) (first # rest) \<longrightarrow>
        format_unhashed_feature (first # rest) weight hl_spaces =
          Inr ((if the (sign first) < 0 then ''-'' else []) @
               format_single_feature (the (name first)) weight hl_spaces @
               (if rest = [] then []
                else '' <span title="'' @
                     join [CHR 0x0A]
                       (map (\<lambda>f. html_escape ((if the (sign f) < 0 then ''-'' else []) @ the (name f)))
                          rest) @
                     ''">&hellip;</span>''))
        \<and> escaped (join [CHR 0x0A]
                       (map (\<lambda>f. html_escape ((if the (sign f) < 0 then ''-'' else []) @ the (name f)))
                          rest)))\<close>
proof -
  have a: "escape_char (CHR ''&'') = ''&amp;''" "escape_char (CHR ''<'') = ''&lt;''"
    "escape_char (CHR ''>'') = ''&gt;''" "escape_char (CHR 0x22) = ''&quot;''"
    "c \<notin> {CHR ''&'', CHR ''<'', CHR ''>'', CHR 0x22} \<longrightarrow> escape_char c = [c]"
    by (simp_all add: escape_char_def)
  have d: "format_single_feature feat weight False = html_escape feat"
    by (simp add: format_single_feature_def)
  have e: "format_single_feature feat weight True = highlight_escaped (replacer weight) True feat"
    by (simp add: format_single_feature_def replace_spaces_def replace_spaces_html_escape)
  let ?title = "join [CHR 0x0A]
      (map (\<lambda>f. html_escape ((if the (sign f) < 0 then ''-'' else []) @ the (name f))) rest)"
  have g: "escaped ?title"
    by (rule escaped_join) (simp_all add: escaped_html_escape)
  have f: \<open>format_unhashed_feature (first # rest) weight hl_spaces =
          Inr ((if the (sign first) < 0 then ''-'' else []) @
               format_single_feature (the (name first)) weight hl_spaces @
               (if rest = [] then [] else '' <span title="'' @ ?title @ ''">&hellip;</span>''))\<close>
    if h: "list_all (\<lambda>x. name x \<noteq> None \<and> sign x \<noteq> None) (first # rest)"
  proof -
    from h obtain n sg where ns: "name first = Some n" "sign first = Some sg" by auto
    from h have "list_all (\<lambda>x. name x \<noteq> None \<and> sign x \<noteq> None) rest" by simp
    from escaped_signed_all [OF this] show ?thesis
      by (simp add: format_unhashed_feature_def format_signed_def ns)
  qed
  from a html_escape_chars [of s] escaped_html_escape [of s]
    colorize_shape [of k weight weight_range] d e f g
  show ?thesis by blast
qed


theorem markup_text_escaped_witness:
  \<open>html_escape ''<a href="x">&</a>'' = ''&lt;a href=&quot;x&quot;&gt;&amp;&lt;/a&gt;''
   \<and> CHR 0x27 \<notin> {CHR ''&'', CHR ''<'', CHR ''>'', CHR 0x22}
   \<and> escape_char (CHR 0x27) = [CHR 0x27]
   \<and> format_single_feature '' <'' 1 True =
       ''<span style="background-color: hsl(120, 80%, 70%); margin: 0 0.1em 0 0" title="A space symbol">&emsp;</span>&lt;''
   \<and> list_all (\<lambda>x. name x \<noteq> None \<and> sign x \<noteq> None)
        [\<lparr>name = Some ''a<b'', sign = Some 1\<rparr>, \<lparr>name = Some ''c"d'', sign = Some (- 1)\<rparr>]
   \<and> format_unhashed_feature
        [\<lparr>name = Some ''a<b'', sign = Some 1\<rparr>, \<lparr>name = Some ''c"d'', sign = Some (- 1)\<rparr>]
        1 False
       = Inr ''a&lt;b <span title="-c&quot;d">&hellip;</span>''\<close>
proof -
  let ?s = \<open>''<a href="x">&</a>''\<close>
  let ?first = "\<lparr>name = Some ''a<b'', sign = Some (1::real)\<rparr>"
  let ?second = \<open>\<lparr>name = Some ''c"d'', sign = Some (- 1::real)\<rparr>\<close>
  note t = markup_text_escaped [of ?s "CHR 0x27" NpFloat64 1 1 "'' <''" ?first "[?second]" False]
  have h1: "CHR 0x27 \<notin> {CHR ''&'', CHR ''<'', CHR ''>'', CHR 0x22}" by simp
  have h2: "list_all (\<lambda>x. name x \<noteq> None \<and> sign x \<noteq> None) [?first, ?second]" by simp
  from t have "html_escape ?s = concat (map escape_char ?s)" by blast
  then have one: \<open>html_escape ?s = ''&lt;a href=&quot;x&quot;&gt;&amp;&lt;/a&gt;''\<close>
    by (simp add: escape_char_def)
  from t h1 have two: "escape_char (CHR 0x27) = [CHR 0x27]" by blast
  from t h2 have \<open>format_unhashed_feature [?first, ?second] 1 False =
          Inr ((if the (sign ?first) < 0 then ''-'' else []) @
               format_single_feature (the (name ?first)) 1 False @
               (if [?second] = [] then []
                else '' <span title="'' @
                     join [CHR 0x0A]
                       (map (\<lambda>f. html_escape ((if the (sign f) < 0 then ''-'' else []) @ the (name f)))
                          [?second]) @
                     ''">&hellip;</span>''))\<close>
    by blast
  then have three: \<open>format_unhashed_feature [?first, ?second] 1 False
       = Inr ''a&lt;b <span title="-c&quot;d">&hellip;</span>''\<close>
    by (simp add: format_single_feature_def html_escape_def replace_char_def)
  from t have "format_single_feature '' <'' 1 True = highlight_escaped (replacer 1) True '' <''"
    by blast
  then have four: \<open>format_single_feature '' <'' 1 True =
       ''<span style="background-color: hsl(120, 80%, 70%); margin: 0 0.1em 0 0" title="A space symbol">&emsp;</span>&lt;''\<close>
    by (simp add: replacer_def is_space_def escape_char_def hue_def str_int_def str_nat_samples)
  from one h1 two four h2 three show ?thesis by blast
qed

end
